theory Spec2Isabelle
  imports Complex_Main "HOL-Library.Word"
begin

section \<open>The face-detection pipeline of \<^verbatim>\<open>face_detection.py\<close>\<close>

text \<open>
  The class \<^verbatim>\<open>FaceDetection\<close> holds an image buffer, a list of detected regions and a
  list of crop records, and its methods are called in sequence by one caller. The object
  becomes a record, its methods become functions from a state to an outcome and a new
  state, and everything outside the repository (the image codec, the detection service,
  the clock, the file system) is a field of a record \<open>world\<close> passed to the methods.
  Calls to \<^verbatim>\<open>logging.info\<close> have no effect on the object and are left out.
\<close>

subsection \<open>Exceptions\<close>

datatype exn =
    TypeError       \<comment> \<open>subscripting \<^verbatim>\<open>None\<close>\<close>
  | IndexError      \<comment> \<open>a vertex index past the end of the vertex list\<close>
  | IOError         \<comment> \<open>\<^verbatim>\<open>io.open\<close> or \<^verbatim>\<open>read\<close> fails\<close>
  | ServiceError    \<comment> \<open>the detection client or its call fails\<close>
  | CvError         \<comment> \<open>\<^verbatim>\<open>cv2.error\<close>\<close>

subsection \<open>Pixel arrays\<close>

text \<open>
  \<^verbatim>\<open>cv2.imread\<close> with its default flag returns a height x width x 3 array of bytes in
  blue-green-red order, or \<^verbatim>\<open>None\<close> when the file cannot be read or decoded.
  \<^verbatim>\<open>cv2.cvtColor(_, COLOR_BGR2GRAY)\<close> returns a height x width array of bytes. An
  array is a list of rows; an array of no rows keeps no width.
\<close>

type_synonym uint8 = "8 word"
type_synonym bgr = "uint8 \<times> uint8 \<times> uint8"
type_synonym 'p grid = "'p list list"

datatype ndarray = BGR "bgr grid" | GRAY "uint8 grid"

definition height :: "'p grid \<Rightarrow> nat" where
  "height g = length g"

definition width :: "'p grid \<Rightarrow> nat" where
  "width g = (case g of [] \<Rightarrow> 0 | r # _ \<Rightarrow> length r)"

definition rectangular :: "'p grid \<Rightarrow> bool" where
  "rectangular g = (\<forall>r \<in> set g. length r = width g)"

definition empty_grid :: "'p grid \<Rightarrow> bool" where
  "empty_grid g = (height g = 0 \<or> width g = 0)"

subsection \<open>Slicing\<close>

text \<open>
  Python adjusts each bound of \<^verbatim>\<open>a[start:stop]\<close> to the length \<open>n\<close> of the axis: a
  negative bound counts from the end and stops at 0, any other bound stops at \<open>n\<close>. The
  slice holds the indices from the adjusted start up to the adjusted stop, and none when
  the stop is not above the start. No bound raises.
\<close>

definition slice_index :: "int \<Rightarrow> nat \<Rightarrow> nat" where
  "slice_index i n = (if i < 0 then nat (max (i + int n) 0) else min (nat i) n)"

text \<open>
  A basic slice of a numpy array is a view: it shares the memory of the array it was
  taken from. The only array ever sliced is \<^verbatim>\<open>self.frame\<close>, which is drawn on in place
  and never rebound after construction, so a view is the window of rows \<open>r0..<r1\<close> and
  columns \<open>c0..<c1\<close> of whatever the frame holds when the view is read. A buffer stored
  in a crop record is such a view, or the array of its own that \<^verbatim>\<open>cvtColor\<close> returned.
\<close>

datatype buffer = View nat nat nat nat | Gray "uint8 grid"

definition numpy_slice :: "'p grid \<Rightarrow> int \<Rightarrow> int \<Rightarrow> int \<Rightarrow> int \<Rightarrow> buffer" where
  "numpy_slice a y0 y1 x0 x1 =
     View (slice_index y0 (height a)) (slice_index y1 (height a))
          (slice_index x0 (width a)) (slice_index x1 (width a))"

definition window :: "'p grid \<Rightarrow> nat \<Rightarrow> nat \<Rightarrow> nat \<Rightarrow> nat \<Rightarrow> 'p grid" where
  "window a r0 r1 c0 c1 = map (\<lambda>row. take (c1 - c0) (drop c0 row)) (take (r1 - r0) (drop r0 a))"

subsection \<open>Strings\<close>

definition digit :: "nat \<Rightarrow> char" where
  "digit d = ''0123456789'' ! d"

fun dec :: "nat \<Rightarrow> string" where
  "dec n = (if n < 10 then [digit n] else dec (n div 10) @ [digit (n mod 10)])"

declare dec.simps [simp del]

definition zero_pad :: "nat \<Rightarrow> nat \<Rightarrow> string" where
  "zero_pad k n = replicate (k - length (dec n)) (CHR ''0'') @ dec n"

text \<open>\<^verbatim>\<open>os.path.join(a, b)\<close> of \<^verbatim>\<open>posixpath\<close>, for two components.\<close>

definition path_join :: "string \<Rightarrow> string \<Rightarrow> string" where
  "path_join a b =
     (if b \<noteq> [] \<and> hd b = CHR ''/'' then b
      else if a = [] \<or> last a = CHR ''/'' then a @ b
      else a @ ''/'' @ b)"

subsection \<open>The clock\<close>

record datetime =
  year :: nat
  month :: nat
  day :: nat
  hour :: nat
  minute :: nat
  second :: nat
  microsecond :: nat


text \<open>\<^verbatim>\<open>strftime("%Y%m%d-%H%M%S-%f")\<close>\<close>

definition strftime_prefix :: "datetime \<Rightarrow> string" where
  "strftime_prefix t =
     zero_pad 4 (year t) @ zero_pad 2 (month t) @ zero_pad 2 (day t) @ ''-'' @
     zero_pad 2 (hour t) @ zero_pad 2 (minute t) @ zero_pad 2 (second t) @ ''-'' @
     zero_pad 6 (microsecond t)"

subsection \<open>The detection service's answer\<close>

text \<open>
  A face exposes \<^verbatim>\<open>bounds.vertices\<close>, a list of vertices with an \<^verbatim>\<open>x_coordinate\<close> and a
  \<^verbatim>\<open>y_coordinate\<close>. A region is the tuple \<^verbatim>\<open>(x, y, w, h)\<close>.
\<close>

type_synonym vertex = "int \<times> int"
type_synonym face = "vertex list"
type_synonym region = "int \<times> int \<times> int \<times> int"

definition py_index :: "'a list \<Rightarrow> nat \<Rightarrow> exn + 'a" where
  "py_index xs i = (if i < length xs then Inr (xs ! i) else Inl IndexError)"

subsection \<open>What lies outside the repository\<close>

datatype font = FONT_HERSHEY_SIMPLEX

type_synonym color = "nat \<times> nat \<times> nat"

text \<open>
  The drawing routines change the pixels of the array they are given and the encoder
  writes a file; what they paint and encode is theirs: \<open>putText\<close> and \<open>rectangle\<close> give
  the pixels after the drawing, \<open>imwrite\<close> and \<open>imshow\<close> answer with the exception
  they raise, if any; the boolean \<^verbatim>\<open>cv2.imwrite\<close> returns is dropped by the code.
  \<open>imshow\<close> stands for \<^verbatim>\<open>cv2.imshow\<close> followed by \<^verbatim>\<open>cv2.waitKey\<close>. The scales
  \<^verbatim>\<open>1.2\<close> and \<^verbatim>\<open>0.8\<close> are kept as the decimals they are written as.
\<close>

record world =
  imread :: "string \<Rightarrow> bgr grid option"
  imshow :: "string \<Rightarrow> bgr grid option \<Rightarrow> exn option"
  vision_Client :: "exn option"
  read_file :: "string \<Rightarrow> exn + uint8 list"
  detect_faces :: "uint8 list \<Rightarrow> exn + face list"
  luma :: "bgr \<Rightarrow> uint8"
  putText :: "bgr grid \<Rightarrow> string \<Rightarrow> int \<times> int \<Rightarrow> font \<Rightarrow> rat \<Rightarrow> color \<Rightarrow> nat \<Rightarrow> bgr grid"
  rectangle :: "bgr grid \<Rightarrow> int \<times> int \<Rightarrow> int \<times> int \<Rightarrow> color \<Rightarrow> nat \<Rightarrow> bgr grid"
  imwrite :: "string \<Rightarrow> ndarray \<Rightarrow> exn option"
  strftime_c :: "datetime \<Rightarrow> string"

text \<open>
  \<^verbatim>\<open>cv2.cvtColor(src, cv2.COLOR_BGR2GRAY)\<close> wants three (or four) channels and a
  non-empty source, and raises \<^verbatim>\<open>cv2.error\<close> otherwise; each pixel of the result is
  the luminance of the pixel of the source.
\<close>

definition luminance :: "world \<Rightarrow> bgr grid \<Rightarrow> uint8 grid" where
  "luminance W g = map (map (luma W)) g"

definition cvtColor_BGR2GRAY :: "world \<Rightarrow> ndarray \<Rightarrow> exn + uint8 grid" where
  "cvtColor_BGR2GRAY W src =
     (case src of
        BGR g \<Rightarrow> if empty_grid g then Inl CvError else Inr (luminance W g)
      | GRAY g \<Rightarrow> Inl CvError)"

text \<open>
  The binding of \<^verbatim>\<open>cv2\<close> converts the coordinates of a point to the C type
  \<^verbatim>\<open>int\<close> and raises \<^verbatim>\<open>cv2.error\<close> for a Python integer outside its range. Given
  \<^verbatim>\<open>None\<close> for the image, \<^verbatim>\<open>cv2.putText\<close> and \<^verbatim>\<open>cv2.rectangle\<close> draw on nothing
  and return, and \<^verbatim>\<open>cv2.imwrite\<close> raises \<^verbatim>\<open>cv2.error\<close>. The drawing routines work
  in place: the result is what the image holds after the call.
\<close>

definition c_int :: "int \<Rightarrow> bool" where
  "c_int i = (- (2 ^ 31) \<le> i \<and> i < 2 ^ 31)"

definition cv2_putText ::
  "world \<Rightarrow> bgr grid option \<Rightarrow> string \<Rightarrow> int \<times> int \<Rightarrow> font \<Rightarrow> rat \<Rightarrow> color \<Rightarrow> nat \<Rightarrow>
   exn + bgr grid option" where
  "cv2_putText W img text org face scale col thickness =
     (if \<not> (c_int (fst org) \<and> c_int (snd org)) then Inl CvError
      else Inr (case img of
                  None \<Rightarrow> None
                | Some a \<Rightarrow> Some (putText W a text org face scale col thickness)))"

definition cv2_rectangle ::
  "world \<Rightarrow> bgr grid option \<Rightarrow> int \<times> int \<Rightarrow> int \<times> int \<Rightarrow> color \<Rightarrow> nat \<Rightarrow> exn + bgr grid option" where
  "cv2_rectangle W img pt1 pt2 col thickness =
     (if \<not> (c_int (fst pt1) \<and> c_int (snd pt1) \<and> c_int (fst pt2) \<and> c_int (snd pt2))
      then Inl CvError
      else Inr (case img of
                  None \<Rightarrow> None
                | Some a \<Rightarrow> Some (rectangle W a pt1 pt2 col thickness)))"

definition cv2_imwrite :: "world \<Rightarrow> string \<Rightarrow> ndarray option \<Rightarrow> exn option" where
  "cv2_imwrite W file img =
     (case img of None \<Rightarrow> Some CvError | Some a \<Rightarrow> imwrite W file a)"

subsection \<open>The object and the objects it refers to\<close>

text \<open>
  A crop record is the dictionary with the keys \<^verbatim>\<open>"frame"\<close>, \<^verbatim>\<open>"x"\<close>, \<^verbatim>\<open>"y"\<close>,
  \<^verbatim>\<open>"w"\<close> and \<^verbatim>\<open>"h"\<close>.
\<close>

record crop =
  key_frame :: buffer
  key_x :: int
  key_y :: int
  key_w :: int
  key_h :: int

text \<open>
  Lists of crop records and the records themselves are mutable objects that the caller
  and the pipeline share, so they live in a store: \<open>list_objs\<close> and \<open>dict_objs\<close> hold the
  list objects and the dictionaries allocated so far, and a reference is a position in
  them. \<^verbatim>\<open>self.items_frames\<close> is a reference to a list of references to dictionaries.
  \<^verbatim>\<open>self.items\<close> is a list of tuples that is built afresh and then only read, so it is
  kept as a value. \<open>imwrite_calls\<close> is the sequence of calls of \<^verbatim>\<open>cv2.imwrite\<close> made so
  far, each with the path and the content of the array it was given (\<^verbatim>\<open>None\<close> when
  it was given no array).
\<close>

type_synonym ref = nat

record state =
  image_path :: string
  archive_folder :: string
  debug :: bool
  items :: "region list"
  items_frames :: ref
  images_prefix :: string
  frame :: "bgr grid option"
  list_objs :: "ref list list"
  dict_objs :: "crop list"
  imwrite_calls :: "(string \<times> ndarray option) list"

definition new_list :: "state \<Rightarrow> ref \<times> state" where
  "new_list s = (length (list_objs s), s\<lparr>list_objs := list_objs s @ [[]]\<rparr>)"

definition new_dict :: "crop \<Rightarrow> state \<Rightarrow> ref \<times> state" where
  "new_dict c s = (length (dict_objs s), s\<lparr>dict_objs := dict_objs s @ [c]\<rparr>)"

definition list_append :: "ref \<Rightarrow> ref \<Rightarrow> state \<Rightarrow> state" where
  "list_append l d s = s\<lparr>list_objs := (list_objs s)[l := list_objs s ! l @ [d]]\<rparr>"

definition set_key_frame :: "ref \<Rightarrow> buffer \<Rightarrow> state \<Rightarrow> state" where
  "set_key_frame d b s = s\<lparr>dict_objs := (dict_objs s)[d := (dict_objs s ! d)\<lparr>key_frame := b\<rparr>]\<rparr>"

text \<open>What an array holds when it is read: a view shows the frame as it is now.\<close>

definition read_buffer :: "state \<Rightarrow> buffer \<Rightarrow> ndarray" where
  "read_buffer s b =
     (case b of
        View r0 r1 c0 c1 \<Rightarrow>
          (case frame s of Some a \<Rightarrow> BGR (window a r0 r1 c0 c1) | None \<Rightarrow> BGR [])
      | Gray g \<Rightarrow> GRAY g)"

text \<open>The crop records of the stored list, in order.\<close>

definition stored_refs :: "state \<Rightarrow> ref list" where
  "stored_refs s = list_objs s ! items_frames s"

definition stored_crops :: "state \<Rightarrow> crop list" where
  "stored_crops s = map (\<lambda>d. dict_objs s ! d) (stored_refs s)"

subsection \<open>\<^verbatim>\<open>__init__\<close>\<close>

definition default_archive_folder :: string where
  "default_archive_folder = ''/tmp/''"

definition init :: "world \<Rightarrow> datetime \<Rightarrow> string \<Rightarrow> string \<Rightarrow> bool \<Rightarrow> exn + state" where
  "init W now path folder dbg =
     (let s = \<lparr>image_path = path, archive_folder = folder, debug = dbg, items = [],
               items_frames = 0, images_prefix = strftime_prefix now,
               frame = imread W path, list_objs = [[]], dict_objs = [],
               imwrite_calls = []\<rparr>
      in if dbg then (case imshow W ''preview'' (frame s) of Some e \<Rightarrow> Inl e | None \<Rightarrow> Inr s)
         else Inr s)"

subsection \<open>\<^verbatim>\<open>find_items\<close>\<close>

definition face_region :: "face \<Rightarrow> exn + region" where
  "face_region vs =
     (case py_index vs 0 of
        Inl e \<Rightarrow> Inl e
      | Inr (x1, y1) \<Rightarrow>
          (case py_index vs 2 of
             Inl e \<Rightarrow> Inl e
           | Inr (x2, y2) \<Rightarrow> Inr (x1, y1, x2 - x1, y2 - y1)))"

fun find_loop :: "face list \<Rightarrow> region list \<Rightarrow> exn + region list" where
  "find_loop [] acc = Inr acc"
| "find_loop (f # fs) acc =
     (case face_region f of Inl e \<Rightarrow> Inl e | Inr r \<Rightarrow> find_loop fs (acc @ [r]))"

definition find_items :: "world \<Rightarrow> state \<Rightarrow> (exn + unit) \<times> state" where
  "find_items W s =
     (case vision_Client W of
        Some e \<Rightarrow> (Inl e, s)
      | None \<Rightarrow>
          (case read_file W (image_path s) of
             Inl e \<Rightarrow> (Inl e, s)
           | Inr content \<Rightarrow>
               (case detect_faces W content of
                  Inl e \<Rightarrow> (Inl e, s)
                | Inr faces \<Rightarrow>
                    (case find_loop faces [] of
                       Inl e \<Rightarrow> (Inl e, s)
                     | Inr its \<Rightarrow> (Inr (), s\<lparr>items := its\<rparr>)))))"

subsection \<open>\<^verbatim>\<open>extract_items_frames\<close>\<close>

text \<open>
  Subscripting \<^verbatim>\<open>self.frame\<close> raises \<^verbatim>\<open>TypeError\<close> when the frame is \<^verbatim>\<open>None\<close>. The
  local list and the records built before an exception stay in the store, unreferenced
  by the object.
\<close>

fun extract_loop :: "region list \<Rightarrow> ref \<Rightarrow> state \<Rightarrow> exn option \<times> state" where
  "extract_loop [] l s = (None, s)"
| "extract_loop ((x, y, w, h) # fs) l s =
     (case frame s of
        None \<Rightarrow> (Some TypeError, s)
      | Some a \<Rightarrow>
          (let item_frame = numpy_slice a y (y + h) x (x + w);
               (d, s1) = new_dict \<lparr>key_frame = item_frame, key_x = x, key_y = y,
                                   key_w = w, key_h = h\<rparr> s
           in extract_loop fs l (list_append l d s1)))"

definition extract_items_frames :: "state \<Rightarrow> (exn + unit) \<times> state" where
  "extract_items_frames s =
     (let (l, s1) = new_list s
      in case extract_loop (items s1) l s1 of
           (Some e, s2) \<Rightarrow> (Inl e, s2)
         | (None, s2) \<Rightarrow> (Inr (), s2\<lparr>items_frames := l\<rparr>))"

subsection \<open>\<^verbatim>\<open>get_items_frames\<close>\<close>

text \<open>The method returns a reference to a list object.\<close>

fun gray_loop :: "world \<Rightarrow> ref list \<Rightarrow> ref \<Rightarrow> state \<Rightarrow> exn option \<times> state" where
  "gray_loop W [] l s = (None, s)"
| "gray_loop W (d # ds) l s =
     (case cvtColor_BGR2GRAY W (read_buffer s (key_frame (dict_objs s ! d))) of
        Inl e \<Rightarrow> (Some e, s)
      | Inr g \<Rightarrow> gray_loop W ds l (list_append l d (set_key_frame d (Gray g) s)))"

definition get_items_frames :: "world \<Rightarrow> bool \<Rightarrow> state \<Rightarrow> (exn + ref) \<times> state" where
  "get_items_frames W grayscale s =
     (if \<not> grayscale then (Inr (items_frames s), s)
      else
        (let (l, s1) = new_list s
         in case gray_loop W (stored_refs s1) l s1 of
              (Some e, s2) \<Rightarrow> (Inl e, s2)
            | (None, s2) \<Rightarrow> (Inr l, s2)))"

subsection \<open>\<^verbatim>\<open>add_label\<close>\<close>

definition add_label :: "world \<Rightarrow> string \<Rightarrow> int \<Rightarrow> int \<Rightarrow> state \<Rightarrow> (exn + unit) \<times> state" where
  "add_label W text x y s =
     (let y = (if y > 11 then y - 5 else y)
      in case cv2_putText W (frame s) text (x + 40, y) FONT_HERSHEY_SIMPLEX (12 / 10)
                (0, 255, 0) 4 of
           Inl e \<Rightarrow> (Inl e, s)
         | Inr f \<Rightarrow> (Inr (), s\<lparr>frame := f\<rparr>))"

subsection \<open>\<^verbatim>\<open>archive_items_frames\<close>\<close>

definition item_name :: "string \<Rightarrow> nat \<Rightarrow> string" where
  "item_name prefix idx = prefix @ ''_item_'' @ dec idx @ ''.jpg''"

fun archive_loop :: "world \<Rightarrow> ref list \<Rightarrow> nat \<Rightarrow> state \<Rightarrow> exn option \<times> state" where
  "archive_loop W [] idx s = (None, s)"
| "archive_loop W (d # ds) idx s =
     (let a_frame = read_buffer s (key_frame (dict_objs s ! d));
          image_name = item_name (images_prefix s) idx;
          file = path_join (archive_folder s) image_name;
          s1 = s\<lparr>imwrite_calls := imwrite_calls s @ [(file, Some a_frame)]\<rparr>
      in case cv2_imwrite W file (Some a_frame) of
           Some e \<Rightarrow> (Some e, s1)
         | None \<Rightarrow> archive_loop W ds (idx + 1) s1)"

definition archive_items_frames :: "world \<Rightarrow> state \<Rightarrow> (exn + unit) \<times> state" where
  "archive_items_frames W s =
     (case archive_loop W (stored_refs s) 0 s of
        (Some e, s1) \<Rightarrow> (Inl e, s1)
      | (None, s1) \<Rightarrow> (Inr (), s1))"

subsection \<open>\<^verbatim>\<open>archive_with_items\<close>\<close>

definition full_name :: "string \<Rightarrow> string" where
  "full_name prefix = prefix @ ''_full.jpg''"

fun rectangle_loop :: "world \<Rightarrow> region list \<Rightarrow> state \<Rightarrow> exn option \<times> state" where
  "rectangle_loop W [] s = (None, s)"
| "rectangle_loop W ((x, y, w, h) # fs) s =
     (case cv2_rectangle W (frame s) (x, y) (x + w, y + h) (0, 255, 0) 3 of
        Inl e \<Rightarrow> (Some e, s)
      | Inr f \<Rightarrow> rectangle_loop W fs (s\<lparr>frame := f\<rparr>))"

definition archive_with_items :: "world \<Rightarrow> datetime \<Rightarrow> state \<Rightarrow> (exn + unit) \<times> state" where
  "archive_with_items W now s =
     (case rectangle_loop W (items s) s of
        (Some e, s1) \<Rightarrow> (Inl e, s1)
      | (None, s1) \<Rightarrow>
          (case cv2_putText W (frame s1) (strftime_c W now) (5, 25) FONT_HERSHEY_SIMPLEX
                  (8 / 10) (0, 0, 0) 3 of
             Inl e \<Rightarrow> (Inl e, s1)
           | Inr f \<Rightarrow>
               (let s2 = s1\<lparr>frame := f\<rparr>
                in case (if debug s2 then imshow W ''preview'' (frame s2) else None) of
                     Some e \<Rightarrow> (Inl e, s2)
                   | None \<Rightarrow>
                       (let archive_full_name = full_name (images_prefix s2);
                            file = path_join (archive_folder s2) archive_full_name;
                            img = map_option BGR (frame s2);
                            s3 = s2\<lparr>imwrite_calls := imwrite_calls s2 @ [(file, img)]\<rparr>
                        in case cv2_imwrite W file img of
                             Some e \<Rightarrow> (Inl e, s3)
                           | None \<Rightarrow> (Inr (), s3)))))"

subsection \<open>Runs\<close>

text \<open>
  A caller invokes the methods in any order, each in the world of its moment, and may
  catch an exception and go on with the object as the failed call left it.
\<close>

datatype call =
    Find_items
  | Extract_items_frames
  | Get_items_frames bool
  | Add_label string int int
  | Archive_items_frames
  | Archive_with_items datetime

definition step :: "state \<Rightarrow> world \<times> call \<Rightarrow> state" where
  "step s wc =
     (case wc of
        (W, Find_items) \<Rightarrow> snd (find_items W s)
      | (W, Extract_items_frames) \<Rightarrow> snd (extract_items_frames s)
      | (W, Get_items_frames g) \<Rightarrow> snd (get_items_frames W g s)
      | (W, Add_label text x y) \<Rightarrow> snd (add_label W text x y s)
      | (W, Archive_items_frames) \<Rightarrow> snd (archive_items_frames W s)
      | (W, Archive_with_items now) \<Rightarrow> snd (archive_with_items W now s))"

definition run :: "(world \<times> call) list \<Rightarrow> state \<Rightarrow> state" where
  "run cs s = foldl step s cs"

subsection \<open>Well-formed stores\<close>

text \<open>
  References never dangle in Python, and the lists the methods build hold each record
  once. \<open>wf\<close> says so of the stored list; it holds of a new object and every method
  keeps it.
\<close>

definition wf :: "state \<Rightarrow> bool" where
  "wf s =
     (items_frames s < length (list_objs s) \<and>
      (\<forall>d \<in> set (stored_refs s). d < length (dict_objs s)) \<and>
      distinct (stored_refs s))"

text \<open>The buffer of the record \<open>d\<close> holds a colour image with at least one pixel.\<close>

definition colour_crop :: "state \<Rightarrow> ref \<Rightarrow> bool" where
  "colour_crop s d =
     (case read_buffer s (key_frame (dict_objs s ! d)) of
        BGR g \<Rightarrow> \<not> empty_grid g
      | GRAY g \<Rightarrow> False)"

subsection \<open>The specification's words\<close>

text \<open>The sub-rectangle of rows \<open>[y, y + h)\<close> and columns \<open>[x, x + w)\<close> of an array.\<close>

definition sub_rectangle :: "'p grid \<Rightarrow> int \<Rightarrow> int \<Rightarrow> int \<Rightarrow> int \<Rightarrow> 'p grid" where
  "sub_rectangle a x y w h =
     map (\<lambda>i. map (\<lambda>j. a ! i ! j) [nat x..<nat (x + w)]) [nat y..<nat (y + h)]"

definition inside :: "'p grid \<Rightarrow> region \<Rightarrow> bool" where
  "inside a r =
     (case r of (x, y, w, h) \<Rightarrow>
        0 \<le> x \<and> 0 \<le> y \<and> 0 \<le> w \<and> 0 \<le> h \<and> x + w \<le> int (width a) \<and> y + h \<le> int (height a))"

text \<open>The crop record of a region of the array \<open>a\<close>.\<close>

definition crop_of :: "bgr grid \<Rightarrow> region \<Rightarrow> crop" where
  "crop_of a r =
     (case r of (x, y, w, h) \<Rightarrow>
        \<lparr>key_frame = numpy_slice a y (y + h) x (x + w), key_x = x, key_y = y, key_w = w,
         key_h = h\<rparr>)"

text \<open>The tuple of a face: vertex 0 is the top-left corner, vertex 2 the bottom-right.\<close>

definition spec_region :: "face \<Rightarrow> region" where
  "spec_region f = (fst (f ! 0), snd (f ! 0), fst (f ! 2) - fst (f ! 0), snd (f ! 2) - snd (f ! 0))"

text \<open>Where a label goes.\<close>

definition spec_label_position :: "int \<Rightarrow> int \<Rightarrow> int \<times> int" where
  "spec_label_position x y = (if y > 11 then (x + 40, y - 5) else (x + 40, y))"






subsection \<open>A small run\<close>

definition demo_image :: "bgr grid" where
  "demo_image =
     [[(1, 1, 1), (2, 2, 2), (3, 3, 3), (4, 4, 4)],
      [(5, 5, 5), (6, 6, 6), (7, 7, 7), (8, 8, 8)],
      [(9, 9, 9), (10, 10, 10), (11, 11, 11), (12, 12, 12)]]"

definition demo_faces :: "face list" where
  "demo_faces = [[(1, 0), (3, 0), (3, 2), (1, 2)], [(0, 1), (2, 1), (2, 3), (0, 3)]]"

definition demo_now :: datetime where
  "demo_now = \<lparr>year = 2017, month = 3, day = 5, hour = 14, minute = 7, second = 9,
               microsecond = 123\<rparr>"

definition demo_world :: world where
  "demo_world =
     \<lparr>imread = (\<lambda>p. Some demo_image),
      imshow = (\<lambda>n a. None),
      vision_Client = None,
      read_file = (\<lambda>p. Inr [255, 216, 255]),
      detect_faces = (\<lambda>c. Inr demo_faces),
      luma = (\<lambda>(b, g, r). g),
      putText = (\<lambda>a t p f k c n. a),
      rectangle = (\<lambda>a p q c n. a),
      imwrite = (\<lambda>p a. None),
      strftime_c = (\<lambda>t. ''Sun Mar  5 14:07:09 2017'')\<rparr>"

definition demo_state :: state where
  "demo_state =
     \<lparr>image_path = ''face.jpg'', archive_folder = ''archives'', debug = False, items = [],
      items_frames = 0, images_prefix = ''20170305-140709-000123'',
      frame = Some demo_image, list_objs = [[]], dict_objs = [], imwrite_calls = []\<rparr>"

text \<open>The same object after detection and cropping.\<close>

definition demo_cropped :: state where
  "demo_cropped =
     demo_state
       \<lparr>items := [(1, 0, 2, 2), (0, 1, 2, 2)], items_frames := 1,
        list_objs := [[], [0, 1]],
        dict_objs :=
          [\<lparr>key_frame = View 0 2 1 3, key_x = 1, key_y = 0, key_w = 2, key_h = 2\<rparr>,
           \<lparr>key_frame = View 1 3 0 2, key_x = 0, key_y = 1, key_w = 2, key_h = 2\<rparr>]\<rparr>"

text \<open>
  An image that the decoder cannot read and the detection service can: the frame is
  \<^verbatim>\<open>None\<close> and a region is stored.
\<close>

definition undecoded_state :: state where
  "undecoded_state = demo_state\<lparr>frame := None, items := [(1, 0, 2, 2)]\<rparr>"

text \<open>A region that reaches past the right edge of the image.\<close>

definition overhanging_state :: state where
  "overhanging_state = demo_state\<lparr>items := [(3, 0, 5, 1)]\<rparr>"

text \<open>The same image, read by a world whose decoder fails on it and whose service finds one face.\<close>

definition undecoded_world :: world where
  "undecoded_world =
     demo_world\<lparr>imread := (\<lambda>p. None),
                detect_faces := (\<lambda>c. Inr [[(1, 0), (3, 0), (3, 2), (1, 2)]])\<rparr>"

text \<open>The same object after \<^verbatim>\<open>get_items_frames(True)\<close>.\<close>

definition demo_gray :: state where
  "demo_gray =
     demo_cropped
       \<lparr>list_objs := [[], [0, 1], [0, 1]],
        dict_objs :=
          [\<lparr>key_frame = Gray [[2, 3], [6, 7]], key_x = 1, key_y = 0, key_w = 2, key_h = 2\<rparr>,
           \<lparr>key_frame = Gray [[5, 6], [9, 10]], key_x = 0, key_y = 1, key_w = 2, key_h = 2\<rparr>]\<rparr>"

text \<open>What \<open>archive_loop\<close> hands to \<^verbatim>\<open>cv2.imwrite\<close> for the record \<open>d\<close> at the index \<open>n\<close>.\<close>

definition item_file :: "state \<Rightarrow> nat \<Rightarrow> ref \<Rightarrow> string \<times> ndarray option" where
  "item_file s n d =
     (path_join (archive_folder s) (item_name (images_prefix s) n),
      Some (read_buffer s (key_frame (dict_objs s ! d))))"

fun files_from :: "state \<Rightarrow> nat \<Rightarrow> ref list \<Rightarrow> (string \<times> ndarray option) list" where
  "files_from s idx [] = []"
| "files_from s idx (d # ds) = item_file s idx d # files_from s (idx + 1) ds"

text \<open>The fields that the file names and the crop list depend on.\<close>

definition same_names :: "state \<Rightarrow> state \<Rightarrow> bool" where
  "same_names s' s = (images_prefix s' = images_prefix s \<and> archive_folder s' = archive_folder s)"

definition same_store :: "state \<Rightarrow> state \<Rightarrow> bool" where
  "same_store s' s =
     (items_frames s' = items_frames s \<and> list_objs s' = list_objs s \<and> dict_objs s' = dict_objs s)"

text \<open>A world whose service finds another face in the same image.\<close>

definition redetect_world :: world where
  "redetect_world = demo_world\<lparr>detect_faces := (\<lambda>c. Inr [[(0, 0), (1, 0), (1, 1), (0, 1)]])\<rparr>"

section \<open>Properties\<close>

subsection \<open>Cropping\<close>

lemma upt_add_Suc: "[n..<Suc (n + k)] = n # [Suc n..<Suc (n + k)]"
  by (rule upt_conv_Cons) simp

lemma extract_loop_None:
  "frame s = None \<Longrightarrow> extract_loop fs l s = (if fs = [] then None else Some TypeError, s)"
  by (cases fs) auto

lemma extract_loop_Some:
  "frame s = Some a \<Longrightarrow> l < length (list_objs s) \<Longrightarrow>
   extract_loop fs l s =
     (None, s\<lparr>dict_objs := dict_objs s @ map (crop_of a) fs,
              list_objs := (list_objs s)[l := list_objs s ! l @
                 [length (dict_objs s)..<length (dict_objs s) + length fs]]\<rparr>)"
proof (induction fs arbitrary: s)
  case Nil
  then show ?case by simp
next
  case (Cons f fs)
  obtain x y w h where f: "f = (x, y, w, h)" by (cases f) auto
  let ?c = "crop_of a f"
  let ?s1 = "list_append l (length (dict_objs s)) (s\<lparr>dict_objs := dict_objs s @ [?c]\<rparr>)"
  have step: "extract_loop (f # fs) l s = extract_loop fs l ?s1"
    using Cons.prems by (simp add: f new_dict_def crop_of_def)
  have pre: "frame ?s1 = Some a" "l < length (list_objs ?s1)"
    using Cons.prems by (simp_all add: list_append_def)
  show ?case
    unfolding step Cons.IH [OF pre]
    using Cons.prems by (simp add: list_append_def upt_add_Suc del: upt_Suc)
qed

lemma nth_append_upt:
  "k = length ys \<Longrightarrow> map ((!) (xs @ ys)) [length xs..<length xs + k] = ys"
  by (rule nth_equalityI) simp_all

lemma extract_Some:
  "frame s = Some a \<Longrightarrow>
   extract_items_frames s =
     (Inr (), s\<lparr>list_objs := list_objs s @
                   [[length (dict_objs s)..<length (dict_objs s) + length (items s)]],
                dict_objs := dict_objs s @ map (crop_of a) (items s),
                items_frames := length (list_objs s)\<rparr>)"
  by (simp add: extract_items_frames_def new_list_def extract_loop_Some)

lemma extract_None:
  "frame s = None \<Longrightarrow>
   extract_items_frames s =
     (if items s = [] then (Inr (), s\<lparr>list_objs := list_objs s @ [[]],
                                      items_frames := length (list_objs s)\<rparr>)
      else (Inl TypeError, s\<lparr>list_objs := list_objs s @ [[]]\<rparr>))"
  by (simp add: extract_items_frames_def new_list_def extract_loop_None)

lemma stored_crops_extract:
  "frame s = Some a \<Longrightarrow>
   stored_crops (snd (extract_items_frames s)) = map (crop_of a) (items s)"
  by (simp add: extract_Some stored_crops_def stored_refs_def nth_append_upt)

lemma stored_crops_extract_empty:
  "items s = [] \<Longrightarrow> stored_crops (snd (extract_items_frames s)) = []"
  by (cases "frame s") (simp_all add: extract_Some extract_None stored_crops_def stored_refs_def)

text \<open>
  C1 (as amended). When the image was decoded, or when no region is stored,
  \<open>extract_items_frames\<close> returns without an exception and leaves exactly one crop record
  per stored region; with no region stored (as before any detection) it leaves no crop
  record, whether the image was decoded or not.
\<close>
theorem C1_one_crop_per_region:
  "frame s \<noteq> None \<or> items s = [] \<Longrightarrow>
   fst (extract_items_frames s) = Inr () \<and>
   length (stored_crops (snd (extract_items_frames s))) = length (items s)"
proof (cases "frame s")
  case None
  assume "frame s \<noteq> None \<or> items s = []"
  with None have "items s = []" by simp
  with None show ?thesis
    by (simp add: extract_None stored_crops_def stored_refs_def)
next
  case (Some a)
  have "fst (extract_items_frames s) = Inr ()"
    by (simp add: extract_Some [OF Some])
  moreover have "length (stored_crops (snd (extract_items_frames s))) = length (items s)"
    by (simp add: stored_crops_extract [OF Some])
  ultimately show ?thesis by simp
qed

text \<open>C1 at the object that holds two regions and a decoded image.\<close>
theorem C1_witness:
  "frame demo_cropped = Some demo_image \<and>
   fst (extract_items_frames demo_cropped) = Inr () \<and>
   length (stored_crops (snd (extract_items_frames demo_cropped))) = length (items demo_cropped) \<and>
   length (items demo_cropped) = 2"
proof -
  have f: "frame demo_cropped = Some demo_image" by (simp add: demo_cropped_def demo_state_def)
  then have h: "frame demo_cropped \<noteq> None \<or> items demo_cropped = []" by simp
  have n: "length (items demo_cropped) = 2" by (simp add: demo_cropped_def demo_state_def)
  from C1_one_crop_per_region [OF h] f n show ?thesis by blast
qed

text \<open>
  C1 as stated fails: an object built from an image that the decoder rejects has the
  frame \<^verbatim>\<open>None\<close>; once detection has stored a region, \<open>extract_items_frames\<close> raises
  \<^verbatim>\<open>TypeError\<close> and no crop record is stored for the region.
\<close>
theorem C1_counterexample:
  "init undecoded_world demo_now ''face.jpg'' ''archives'' False =
     Inr (undecoded_state\<lparr>items := []\<rparr>) \<and>
   find_items undecoded_world (undecoded_state\<lparr>items := []\<rparr>) = (Inr (), undecoded_state) \<and>
   frame undecoded_state = None \<and> items undecoded_state = [(1, 0, 2, 2)] \<and>
   fst (extract_items_frames undecoded_state) = Inl TypeError \<and>
   stored_crops (snd (extract_items_frames undecoded_state)) = []"
proof -
  have "init undecoded_world demo_now ''face.jpg'' ''archives'' False =
          Inr (undecoded_state\<lparr>items := []\<rparr>)"
    by code_simp
  moreover have "find_items undecoded_world (undecoded_state\<lparr>items := []\<rparr>) =
          (Inr (), undecoded_state)"
    by code_simp
  moreover have "frame undecoded_state = None \<and> items undecoded_state = [(1, 0, 2, 2)] \<and>
      fst (extract_items_frames undecoded_state) = Inl TypeError \<and>
      stored_crops (snd (extract_items_frames undecoded_state)) = []"
    by (simp add: undecoded_state_def demo_state_def extract_items_frames_def new_list_def
        stored_crops_def stored_refs_def)
  ultimately show ?thesis by blast
qed

lemma take_drop_nth: "r0 \<le> r1 \<Longrightarrow> r1 \<le> length xs \<Longrightarrow> take (r1 - r0) (drop r0 xs) = map ((!) xs) [r0..<r1]"
  by (rule nth_equalityI) simp_all

lemma slice_index_inside: "0 \<le> i \<Longrightarrow> i \<le> int n \<Longrightarrow> slice_index i n = nat i"
  by (simp add: slice_index_def)

lemma window_inside:
  assumes "rectangular a" "inside a (x, y, w, h)"
  shows "window a (slice_index y (height a)) (slice_index (y + h) (height a))
           (slice_index x (width a)) (slice_index (x + w) (width a)) = sub_rectangle a x y w h"
proof -
  from assms(2) have b: "0 \<le> x" "0 \<le> y" "0 \<le> w" "0 \<le> h" "x + w \<le> int (width a)"
      "y + h \<le> int (height a)"
    by (simp_all add: inside_def)
  have rows: "take (nat (y + h) - nat y) (drop (nat y) a) = map ((!) a) [nat y..<nat (y + h)]"
    using b by (intro take_drop_nth) (simp_all add: height_def nat_le_iff)
  have cols: "take (nat (x + w) - nat x) (drop (nat x) (a ! i)) = map ((!) (a ! i)) [nat x..<nat (x + w)]"
    if "i < length a" for i
  proof -
    have "length (a ! i) = width a" using assms(1) that by (simp add: rectangular_def)
    then show ?thesis using b by (intro take_drop_nth) (simp_all add: nat_le_iff)
  qed
  have "i \<in> set [nat y..<nat (y + h)] \<Longrightarrow> i < length a" for i
    using b by (simp add: height_def) linarith
  then show ?thesis
    using b by (simp add: window_def sub_rectangle_def slice_index_inside rows cols height_def
        nat_le_iff cong: map_cong)
qed


text \<open>
  C2 (as amended). When the image was decoded, the crop record built for the region
  \<open>(x, y, w, h)\<close> stores exactly these four numbers, and its buffer is the slice
  \<^verbatim>\<open>frame[y:y+h, x:x+w]\<close>; when the region lies inside the image, that slice is the
  sub-rectangle of rows \<open>[y, y + h)\<close> and columns \<open>[x, x + w)\<close>.
\<close>
theorem C2_crop_of_region:
  assumes "frame s = Some a" "i < length (items s)" "items s ! i = (x, y, w, h)"
  shows "key_x (stored_crops (snd (extract_items_frames s)) ! i) = x \<and>
         key_y (stored_crops (snd (extract_items_frames s)) ! i) = y \<and>
         key_w (stored_crops (snd (extract_items_frames s)) ! i) = w \<and>
         key_h (stored_crops (snd (extract_items_frames s)) ! i) = h \<and>
         key_frame (stored_crops (snd (extract_items_frames s)) ! i) =
           numpy_slice a y (y + h) x (x + w) \<and>
         (rectangular a \<and> inside a (x, y, w, h) \<longrightarrow>
            read_buffer (snd (extract_items_frames s))
              (key_frame (stored_crops (snd (extract_items_frames s)) ! i)) =
            BGR (sub_rectangle a x y w h))"
proof -
  have c: "stored_crops (snd (extract_items_frames s)) ! i = crop_of a (x, y, w, h)"
    using assms by (simp add: stored_crops_extract)
  have f: "frame (snd (extract_items_frames s)) = Some a"
    using assms(1) by (simp add: extract_Some)
  show ?thesis
    unfolding c by (simp add: crop_of_def read_buffer_def f numpy_slice_def window_inside)
qed

text \<open>C2 at the first region of the object that holds two regions.\<close>
theorem C2_witness:
  "frame demo_cropped = Some demo_image \<and> (0::nat) < length (items demo_cropped) \<and>
   items demo_cropped ! 0 = (1, 0, 2, 2) \<and> rectangular demo_image \<and>
   inside demo_image (1, 0, 2, 2) \<and>
   key_x (stored_crops (snd (extract_items_frames demo_cropped)) ! 0) = 1 \<and>
   key_w (stored_crops (snd (extract_items_frames demo_cropped)) ! 0) = 2 \<and>
   read_buffer (snd (extract_items_frames demo_cropped))
     (key_frame (stored_crops (snd (extract_items_frames demo_cropped)) ! 0)) =
   BGR (sub_rectangle demo_image 1 0 2 2) \<and>
   sub_rectangle demo_image 1 0 2 2 = [[(2, 2, 2), (3, 3, 3)], [(6, 6, 6), (7, 7, 7)]]"
proof -
  have h1: "frame demo_cropped = Some demo_image" by code_simp
  have h2: "(0::nat) < length (items demo_cropped)" by code_simp
  have h3: "items demo_cropped ! 0 = (1, 0, 2, 2)" by code_simp
  have r: "rectangular demo_image" "inside demo_image (1, 0, 2, 2)" by code_simp+
  have v: "sub_rectangle demo_image 1 0 2 2 = [[(2, 2, 2), (3, 3, 3)], [(6, 6, 6), (7, 7, 7)]]"
    by code_simp
  from C2_crop_of_region [OF h1 h2 h3] r v h1 h2 h3 show ?thesis by blast
qed

text \<open>
  C2 as stated fails: for a region that starts in the last column and is five columns
  wide, the record stores the width 5 and a buffer of one column, where the sub-rectangle
  of the claim has five.
\<close>
theorem C2_counterexample:
  "frame overhanging_state = Some demo_image \<and> items overhanging_state = [(3, 0, 5, 1)] \<and>
   key_w (hd (stored_crops (snd (extract_items_frames overhanging_state)))) = 5 \<and>
   read_buffer (snd (extract_items_frames overhanging_state))
     (key_frame (hd (stored_crops (snd (extract_items_frames overhanging_state))))) =
   BGR [[(4, 4, 4)]] \<and>
   length (sub_rectangle demo_image 3 0 5 1 ! 0) = 5"
proof -
  have "length (sub_rectangle demo_image 3 0 5 1 ! 0) = 5"
    by (simp add: sub_rectangle_def)
  moreover have "frame overhanging_state = Some demo_image \<and>
      items overhanging_state = [(3, 0, 5, 1)] \<and>
      key_w (hd (stored_crops (snd (extract_items_frames overhanging_state)))) = 5 \<and>
      read_buffer (snd (extract_items_frames overhanging_state))
        (key_frame (hd (stored_crops (snd (extract_items_frames overhanging_state))))) =
      BGR [[(4, 4, 4)]]"
    by (simp add: overhanging_state_def demo_state_def demo_image_def extract_items_frames_def
        new_list_def new_dict_def list_append_def stored_crops_def stored_refs_def
        read_buffer_def numpy_slice_def slice_index_def window_def width_def height_def)
  ultimately show ?thesis by blast
qed

subsection \<open>Detection\<close>

lemma face_region_spec: "3 \<le> length f \<Longrightarrow> face_region f = Inr (spec_region f)"
  by (auto simp: face_region_def py_index_def spec_region_def split: prod.splits)

lemma find_loop_spec:
  "\<forall>f \<in> set faces. 3 \<le> length f \<Longrightarrow> find_loop faces acc = Inr (acc @ map spec_region faces)"
  by (induction faces arbitrary: acc) (simp_all add: face_region_spec)

text \<open>
  C3. When the client is built, the file is read and the service answers with faces that
  each have a vertex 0 and a vertex 2, \<open>find_items\<close> returns and the stored region list
  becomes the list of the tuples \<open>(x1, y1, x2 - x1, y2 - y1)\<close> of the faces, in the order
  of the answer, whatever list was stored before.
\<close>
theorem C3_regions_of_faces:
  assumes "vision_Client W = None" "read_file W (image_path s) = Inr content"
    "detect_faces W content = Inr faces" "\<forall>f \<in> set faces. 3 \<le> length f"
  shows "find_items W s = (Inr (), s\<lparr>items := map spec_region faces\<rparr>)"
  using assms by (simp add: find_items_def find_loop_spec)

text \<open>C3 at the two faces of the small run, on an object that already holds regions.\<close>
theorem C3_witness:
  "vision_Client demo_world = None \<and>
   read_file demo_world (image_path demo_cropped) = Inr [255, 216, 255] \<and>
   detect_faces demo_world [255, 216, 255] = Inr demo_faces \<and>
   map length demo_faces = [4, 4] \<and>
   find_items demo_world demo_cropped =
     (Inr (), demo_cropped\<lparr>items := map spec_region demo_faces\<rparr>) \<and>
   map spec_region demo_faces = [(1, 0, 2, 2), (0, 1, 2, 2)]"
proof -
  have h1: "vision_Client demo_world = None" by (simp add: demo_world_def)
  have h2: "read_file demo_world (image_path demo_cropped) = Inr [255, 216, 255]"
    by (simp add: demo_world_def)
  have h3: "detect_faces demo_world [255, 216, 255] = Inr demo_faces" by (simp add: demo_world_def)
  have l: "map length demo_faces = [4, 4]" by (simp add: demo_faces_def)
  have h4: "\<forall>f \<in> set demo_faces. 3 \<le> length f" by (simp add: demo_faces_def)
  have v: "map spec_region demo_faces = [(1, 0, 2, 2), (0, 1, 2, 2)]"
    by (simp add: demo_faces_def spec_region_def)
  from C3_regions_of_faces [OF h1 h2 h3 h4] h1 h2 h3 l v show ?thesis by blast
qed

subsection \<open>Grayscale\<close>

lemma read_buffer_frame: "frame s' = frame s \<Longrightarrow> read_buffer s' b = read_buffer s b"
  by (cases b) (simp_all add: read_buffer_def)

lemma gray_loop_fields:
  "gray_loop W ds l s = (r, s') \<Longrightarrow>
     frame s' = frame s \<and> items s' = items s \<and> items_frames s' = items_frames s \<and>
     images_prefix s' = images_prefix s \<and> archive_folder s' = archive_folder s \<and>
     image_path s' = image_path s \<and> debug s' = debug s \<and> imwrite_calls s' = imwrite_calls s \<and>
     length (dict_objs s') = length (dict_objs s) \<and> length (list_objs s') = length (list_objs s)"
  by (induction W ds l s rule: gray_loop.induct)
     (auto simp: list_append_def set_key_frame_def split: sum.splits)

lemma set_key_frame_coords:
  "key_x (dict_objs (set_key_frame d b s) ! e) = key_x (dict_objs s ! e) \<and>
   key_y (dict_objs (set_key_frame d b s) ! e) = key_y (dict_objs s ! e) \<and>
   key_w (dict_objs (set_key_frame d b s) ! e) = key_w (dict_objs s ! e) \<and>
   key_h (dict_objs (set_key_frame d b s) ! e) = key_h (dict_objs s ! e)"
  by (cases "d < length (dict_objs s)") (auto simp: set_key_frame_def nth_list_update not_less list_update_beyond)

lemma gray_loop_coords:
  "gray_loop W ds l s = (r, s') \<Longrightarrow>
     key_x (dict_objs s' ! e) = key_x (dict_objs s ! e) \<and>
     key_y (dict_objs s' ! e) = key_y (dict_objs s ! e) \<and>
     key_w (dict_objs s' ! e) = key_w (dict_objs s ! e) \<and>
     key_h (dict_objs s' ! e) = key_h (dict_objs s ! e)"
proof (induction W ds l s rule: gray_loop.induct)
  case (1 W l s)
  then show ?case by simp
next
  case (2 W d ds l s)
  show ?case
  proof (cases "cvtColor_BGR2GRAY W (read_buffer s (key_frame (dict_objs s ! d)))")
    case (Inl e)
    with 2 show ?thesis by simp
  next
    case (Inr g)
    have "dict_objs (list_append l d (set_key_frame d (Gray g) s)) = dict_objs (set_key_frame d (Gray g) s)"
      by (simp add: list_append_def)
    with 2 Inr show ?thesis by (simp add: set_key_frame_coords)
  qed
qed

lemma gray_loop_others:
  "gray_loop W ds l s = (r, s') \<Longrightarrow> e \<notin> set ds \<Longrightarrow> dict_objs s' ! e = dict_objs s ! e"
  by (induction W ds l s rule: gray_loop.induct)
     (auto simp: list_append_def set_key_frame_def split: sum.splits)

lemma gray_loop_lists:
  "gray_loop W ds l s = (r, s') \<Longrightarrow> j \<noteq> l \<Longrightarrow> list_objs s' ! j = list_objs s ! j"
  by (induction W ds l s rule: gray_loop.induct)
     (auto simp: list_append_def set_key_frame_def split: sum.splits)

lemma gray_loop_returned:
  "gray_loop W ds l s = (None, s') \<Longrightarrow> l < length (list_objs s) \<Longrightarrow>
   list_objs s' ! l = list_objs s ! l @ ds"
  by (induction W ds l s rule: gray_loop.induct)
     (auto simp: list_append_def set_key_frame_def split: sum.splits)


lemma cvt_colour:
  "read_buffer s b = BGR g \<Longrightarrow> \<not> empty_grid g \<Longrightarrow>
   cvtColor_BGR2GRAY W (read_buffer s b) = Inr (luminance W g)"
  by (simp add: cvtColor_BGR2GRAY_def)

lemma cvt_Inr:
  "cvtColor_BGR2GRAY W src = Inr g' \<Longrightarrow> \<exists>g. src = BGR g \<and> \<not> empty_grid g \<and> g' = luminance W g"
  by (auto simp: cvtColor_BGR2GRAY_def split: ndarray.splits if_splits)

lemma gray_loop_converted:
  "gray_loop W ds l s = (None, s') \<Longrightarrow> distinct ds \<Longrightarrow> \<forall>d \<in> set ds. d < length (dict_objs s) \<Longrightarrow>
   d \<in> set ds \<Longrightarrow>
   \<exists>g. read_buffer s (key_frame (dict_objs s ! d)) = BGR g \<and> \<not> empty_grid g \<and>
       dict_objs s' ! d = (dict_objs s ! d)\<lparr>key_frame := Gray (luminance W g)\<rparr>"
proof (induction W ds l s rule: gray_loop.induct)
  case (1 W l s)
  then show ?case by simp
next
  case (2 W d0 ds l s)
  from "2.prems"(1) obtain g0 where
    c: "cvtColor_BGR2GRAY W (read_buffer s (key_frame (dict_objs s ! d0))) = Inr g0"
    by (auto split: sum.splits)
  let ?s1 = "list_append l d0 (set_key_frame d0 (Gray g0) s)"
  from "2.prems"(1) c have loop: "gray_loop W ds l ?s1 = (None, s')" by simp
  have d1: "dict_objs ?s1 = (dict_objs s)[d0 := (dict_objs s ! d0)\<lparr>key_frame := Gray g0\<rparr>]"
    by (simp add: list_append_def set_key_frame_def)
  have f1: "frame ?s1 = frame s" by (simp add: list_append_def set_key_frame_def)
  from "2.prems"(2) have nin: "d0 \<notin> set ds" and dist: "distinct ds" by simp_all
  from "2.prems"(3) have v0: "d0 < length (dict_objs s)" by simp
  show ?case
  proof (cases "d = d0")
    case True
    from cvt_Inr [OF c] obtain g where g: "read_buffer s (key_frame (dict_objs s ! d0)) = BGR g"
      "\<not> empty_grid g" "g0 = luminance W g" by blast
    have "dict_objs s' ! d0 = dict_objs ?s1 ! d0" by (rule gray_loop_others [OF loop nin])
    also have "\<dots> = (dict_objs s ! d0)\<lparr>key_frame := Gray g0\<rparr>" using v0 by (simp add: d1)
    finally show ?thesis using g True by simp
  next
    case False
    with "2.prems"(4) have din: "d \<in> set ds" by simp
    have valid: "\<forall>d \<in> set ds. d < length (dict_objs ?s1)" using "2.prems"(3) by (simp add: d1)
    from "2.IH" [OF c loop dist valid din] obtain g where
      g: "read_buffer ?s1 (key_frame (dict_objs ?s1 ! d)) = BGR g" "\<not> empty_grid g"
         "dict_objs s' ! d = (dict_objs ?s1 ! d)\<lparr>key_frame := Gray (luminance W g)\<rparr>" by blast
    have same: "dict_objs ?s1 ! d = dict_objs s ! d" using False by (simp add: d1)
    from g show ?thesis unfolding same read_buffer_frame [OF f1] by blast
  qed
qed

lemma colour_crop_cvt:
  "colour_crop s d \<Longrightarrow> \<exists>g. cvtColor_BGR2GRAY W (read_buffer s (key_frame (dict_objs s ! d))) = Inr g"
  by (auto simp: colour_crop_def cvtColor_BGR2GRAY_def split: ndarray.splits)

lemma colour_crop_same:
  "frame s' = frame s \<Longrightarrow> dict_objs s' ! d = dict_objs s ! d \<Longrightarrow> colour_crop s' d = colour_crop s d"
  by (simp add: colour_crop_def read_buffer_frame [of s' s])

lemma gray_loop_succeeds:
  "distinct ds \<Longrightarrow> (\<And>d. d \<in> set ds \<Longrightarrow> colour_crop s d) \<Longrightarrow> fst (gray_loop W ds l s) = None"
proof (induction ds arbitrary: s)
  case Nil
  show ?case by simp
next
  case (Cons d0 ds)
  have "colour_crop s d0" by (rule Cons.prems(2)) simp
  then obtain g0 where
    c: "cvtColor_BGR2GRAY W (read_buffer s (key_frame (dict_objs s ! d0))) = Inr g0"
    using colour_crop_cvt by blast
  let ?s1 = "list_append l d0 (set_key_frame d0 (Gray g0) s)"
  have f1: "frame ?s1 = frame s" by (simp add: list_append_def set_key_frame_def)
  have col: "colour_crop ?s1 d" if "d \<in> set ds" for d
  proof -
    from that Cons.prems(1) have ne: "d \<noteq> d0" by auto
    have same: "dict_objs ?s1 ! d = dict_objs s ! d"
      using ne by (simp add: list_append_def set_key_frame_def)
    have "colour_crop s d" using that by (intro Cons.prems(2)) simp
    then show ?thesis by (simp only: colour_crop_same [OF f1 same])
  qed
  from Cons.prems(1) have "distinct ds" by simp
  then have "fst (gray_loop W ds l ?s1) = None" using col by (rule Cons.IH)
  then show ?case by (simp add: c)
qed


lemma stored_refs_new_list:
  "items_frames s < length (list_objs s) \<Longrightarrow>
   stored_refs (s\<lparr>list_objs := list_objs s @ [[]]\<rparr>) = stored_refs s"
  by (simp add: stored_refs_def nth_append)

lemma get_True:
  "wf s \<Longrightarrow>
   get_items_frames W True s =
     (case gray_loop W (stored_refs s) (length (list_objs s)) (s\<lparr>list_objs := list_objs s @ [[]]\<rparr>) of
        (Some e, s2) \<Rightarrow> (Inl e, s2)
      | (None, s2) \<Rightarrow> (Inr (length (list_objs s)), s2))"
  by (simp add: get_items_frames_def new_list_def wf_def stored_refs_new_list)

lemma get_True_returns:
  assumes "wf s" "get_items_frames W True s = (Inr r, s')"
  shows "r = length (list_objs s) \<and>
         gray_loop W (stored_refs s) (length (list_objs s)) (s\<lparr>list_objs := list_objs s @ [[]]\<rparr>) = (None, s')"
  using assms(2) unfolding get_True [OF assms(1)]
  by (auto split: prod.splits option.splits)

lemma get_True_effect:
  assumes "wf s" "get_items_frames W True s = (Inr r, s')"
  shows "r = length (list_objs s)"
    and "list_objs s' ! r = stored_refs s"
    and "stored_refs s' = stored_refs s"
    and "items_frames s' = items_frames s"
    and "frame s' = frame s"
    and "d \<in> set (stored_refs s) \<Longrightarrow>
         \<exists>g. read_buffer s (key_frame (dict_objs s ! d)) = BGR g \<and> \<not> empty_grid g \<and>
             dict_objs s' ! d = (dict_objs s ! d)\<lparr>key_frame := Gray (luminance W g)\<rparr>"
proof -
  let ?l = "length (list_objs s)"
  let ?s1 = "s\<lparr>list_objs := list_objs s @ [[]]\<rparr>"
  from get_True_returns [OF assms] have r: "r = ?l"
    and loop: "gray_loop W (stored_refs s) ?l ?s1 = (None, s')" by simp_all
  from assms(1) have v: "items_frames s < ?l" "\<forall>d \<in> set (stored_refs s). d < length (dict_objs s)"
    "distinct (stored_refs s)" by (simp_all add: wf_def)
  show "r = ?l" by (rule r)
  have "list_objs s' ! ?l = list_objs ?s1 ! ?l @ stored_refs s"
    by (rule gray_loop_returned [OF loop]) simp
  then show "list_objs s' ! r = stored_refs s" by (simp add: r)
  have fl: "frame s' = frame ?s1 \<and> items_frames s' = items_frames ?s1"
    using gray_loop_fields [OF loop] by blast
  then show "items_frames s' = items_frames s" and "frame s' = frame s" by simp_all
  have "list_objs s' ! items_frames s = list_objs ?s1 ! items_frames s"
    using v(1) by (intro gray_loop_lists [OF loop]) simp
  then show "stored_refs s' = stored_refs s"
    using fl v(1) by (simp add: stored_refs_def nth_append)
  assume d: "d \<in> set (stored_refs s)"
  have "\<exists>g. read_buffer ?s1 (key_frame (dict_objs ?s1 ! d)) = BGR g \<and> \<not> empty_grid g \<and>
       dict_objs s' ! d = (dict_objs ?s1 ! d)\<lparr>key_frame := Gray (luminance W g)\<rparr>"
    using v(2) by (intro gray_loop_converted [OF loop v(3) _ d]) simp
  then show "\<exists>g. read_buffer s (key_frame (dict_objs s ! d)) = BGR g \<and> \<not> empty_grid g \<and>
             dict_objs s' ! d = (dict_objs s ! d)\<lparr>key_frame := Gray (luminance W g)\<rparr>"
    by (simp add: read_buffer_frame [of ?s1 s])
qed

lemma get_True_succeeds:
  assumes "wf s" "\<forall>d \<in> set (stored_refs s). colour_crop s d"
  shows "\<exists>s'. get_items_frames W True s = (Inr (length (list_objs s)), s')"
proof -
  let ?s1 = "s\<lparr>list_objs := list_objs s @ [[]]\<rparr>"
  have "colour_crop ?s1 d" if "d \<in> set (stored_refs s)" for d
    using that assms(2) by (simp add: colour_crop_same [of ?s1 s])
  moreover from assms(1) have "distinct (stored_refs s)" by (simp add: wf_def)
  ultimately have "fst (gray_loop W (stored_refs s) (length (list_objs s)) ?s1) = None"
    by (intro gray_loop_succeeds) simp_all
  then show ?thesis
    unfolding get_True [OF assms(1)] by (auto split: prod.splits option.splits)
qed

text \<open>
  C5 (as amended). When every stored crop holds a colour buffer with at least one pixel,
  \<open>get_items_frames True\<close> returns a list that holds the stored records in order, and
  each stored record has its buffer field overwritten with the single-channel luminance
  image of the buffer it held, its \<open>x\<close>, \<open>y\<close>, \<open>w\<close> and \<open>h\<close> unchanged.
\<close>

theorem C5_grayscale_in_place:
  assumes "wf s" "\<forall>d \<in> set (stored_refs s). colour_crop s d"
    "get_items_frames W True s = (r, s')"
  shows "r = Inr (length (list_objs s)) \<and>
         list_objs s' ! length (list_objs s) = stored_refs s \<and>
         stored_refs s' = stored_refs s \<and>
         (\<forall>d \<in> set (stored_refs s).
            \<exists>g. read_buffer s (key_frame (dict_objs s ! d)) = BGR g \<and>
                dict_objs s' ! d = (dict_objs s ! d)\<lparr>key_frame := Gray (luminance W g)\<rparr> \<and>
                read_buffer s' (key_frame (dict_objs s' ! d)) = GRAY (luminance W g))"
proof -
  from get_True_succeeds [OF assms(1,2), of W] assms(3)
  have r: "r = Inr (length (list_objs s))" by auto
  with assms(3) have g: "get_items_frames W True s = (Inr (length (list_objs s)), s')" by simp
  note e = get_True_effect [OF assms(1) g]
  have "\<exists>g. read_buffer s (key_frame (dict_objs s ! d)) = BGR g \<and>
           dict_objs s' ! d = (dict_objs s ! d)\<lparr>key_frame := Gray (luminance W g)\<rparr> \<and>
           read_buffer s' (key_frame (dict_objs s' ! d)) = GRAY (luminance W g)"
    if "d \<in> set (stored_refs s)" for d
  proof -
    from e(6) [OF that] obtain g where
      "read_buffer s (key_frame (dict_objs s ! d)) = BGR g"
      "dict_objs s' ! d = (dict_objs s ! d)\<lparr>key_frame := Gray (luminance W g)\<rparr>" by blast
    then show ?thesis by (auto simp: read_buffer_def)
  qed
  with r e(2,3) show ?thesis by simp
qed

text \<open>C5 at the object that holds two colour crops.\<close>

theorem C5_witness:
  "wf demo_cropped \<and> stored_refs demo_cropped = [0, 1] \<and>
   colour_crop demo_cropped 0 \<and> colour_crop demo_cropped 1 \<and>
   get_items_frames demo_world True demo_cropped = (Inr 2, demo_gray) \<and>
   list_objs demo_gray ! length (list_objs demo_cropped) = stored_refs demo_cropped \<and>
   stored_refs demo_gray = stored_refs demo_cropped \<and>
   stored_crops demo_gray =
     [\<lparr>key_frame = Gray [[2, 3], [6, 7]], key_x = 1, key_y = 0, key_w = 2, key_h = 2\<rparr>,
      \<lparr>key_frame = Gray [[5, 6], [9, 10]], key_x = 0, key_y = 1, key_w = 2, key_h = 2\<rparr>]"
proof -
  have w: "wf demo_cropped" by code_simp
  have r: "stored_refs demo_cropped = [0, 1]" by code_simp
  have c: "colour_crop demo_cropped 0" "colour_crop demo_cropped 1" by code_simp+
  have h: "\<forall>d \<in> set (stored_refs demo_cropped). colour_crop demo_cropped d"
    using c by (simp add: r)
  have g: "get_items_frames demo_world True demo_cropped = (Inr 2, demo_gray)" by code_simp
  have v: "stored_crops demo_gray =
     [\<lparr>key_frame = Gray [[2, 3], [6, 7]], key_x = 1, key_y = 0, key_w = 2, key_h = 2\<rparr>,
      \<lparr>key_frame = Gray [[5, 6], [9, 10]], key_x = 0, key_y = 1, key_w = 2, key_h = 2\<rparr>]"
    by code_simp
  from C5_grayscale_in_place [OF w h g] w r c g v show ?thesis by blast
qed

text \<open>
  C5 as stated fails: after one call of \<open>get_items_frames True\<close> the stored crops hold
  single-channel buffers, and a second call raises in \<^verbatim>\<open>cvtColor\<close>: it converts nothing
  and returns no list.
\<close>

theorem C5_counterexample:
  "get_items_frames demo_world True demo_cropped = (Inr 2, demo_gray) \<and>
   fst (get_items_frames demo_world True demo_gray) = Inl CvError \<and>
   stored_crops (snd (get_items_frames demo_world True demo_gray)) = stored_crops demo_gray"
proof -
  have "get_items_frames demo_world True demo_cropped = (Inr 2, demo_gray)" by code_simp
  moreover have "fst (get_items_frames demo_world True demo_gray) = Inl CvError" by code_simp
  moreover have "stored_crops (snd (get_items_frames demo_world True demo_gray)) =
      stored_crops demo_gray" by code_simp
  ultimately show ?thesis by blast
qed

text \<open>
  C8. \<open>get_items_frames False\<close> returns the reference held in \<^verbatim>\<open>self.items_frames\<close> and
  changes nothing: no list is allocated and no record is touched, so the list the caller
  receives is the stored list itself, and what the caller appends to it is appended to
  the stored list.
\<close>

theorem C8_same_list_object:
  assumes "get_items_frames W False s = (r, s')"
  shows "r = Inr (items_frames s) \<and> s' = s \<and>
         (items_frames s < length (list_objs s) \<longrightarrow>
            stored_refs (list_append (items_frames s) d s') = stored_refs s @ [d])"
  using assms by (auto simp: get_items_frames_def stored_refs_def list_append_def)

text \<open>C8 at the object that holds two crops.\<close>

theorem C8_witness:
  "get_items_frames demo_world False demo_cropped = (Inr 1, demo_cropped) \<and>
   Inr 1 = (Inr (items_frames demo_cropped) :: exn + ref) \<and>
   items_frames demo_cropped < length (list_objs demo_cropped) \<and>
   stored_refs (list_append (items_frames demo_cropped) 0 demo_cropped) =
     stored_refs demo_cropped @ [0]"
proof -
  have g: "get_items_frames demo_world False demo_cropped = (Inr 1, demo_cropped)" by code_simp
  have v: "items_frames demo_cropped < length (list_objs demo_cropped)" by code_simp
  from C8_same_list_object [OF g, of 0] g v show ?thesis by blast
qed

text \<open>
  C10. When \<open>get_items_frames True\<close> returns, the list it returns is a new list object
  with the length and the elements of the stored list, in order: the very records the
  stored list holds. The stored list is the same list of the same records, each now with
  the grayscale image of the buffer it held, and \<open>get_items_frames False\<close> then
  returns the stored list with these records.
\<close>

theorem C10_returned_list_shares_records:
  assumes "wf s" "get_items_frames W True s = (Inr r, s')"
  shows "length (list_objs s' ! r) = length (stored_refs s) \<and>
         list_objs s' ! r = stored_refs s \<and>
         r \<noteq> items_frames s \<and>
         stored_refs s' = stored_refs s \<and>
         map ((!) (dict_objs s')) (list_objs s' ! r) = stored_crops s' \<and>
         (\<forall>d \<in> set (stored_refs s).
            \<exists>g. read_buffer s (key_frame (dict_objs s ! d)) = BGR g \<and>
                key_frame (dict_objs s' ! d) = Gray (luminance W g)) \<and>
         get_items_frames W False s' = (Inr (items_frames s), s')"
proof -
  note e = get_True_effect [OF assms]
  have "r \<noteq> items_frames s" using e(1) assms(1) by (simp add: wf_def)
  moreover have "map ((!) (dict_objs s')) (list_objs s' ! r) = stored_crops s'"
    by (simp add: e(2,3) stored_crops_def)
  moreover have "\<exists>g. read_buffer s (key_frame (dict_objs s ! d)) = BGR g \<and>
           key_frame (dict_objs s' ! d) = Gray (luminance W g)"
    if "d \<in> set (stored_refs s)" for d
    using e(6) [OF that] by auto
  moreover have "get_items_frames W False s' = (Inr (items_frames s), s')"
    by (simp add: get_items_frames_def e(4))
  ultimately show ?thesis using e(2,3) by simp
qed

text \<open>C10 at the object that holds two colour crops.\<close>

theorem C10_witness:
  "wf demo_cropped \<and> get_items_frames demo_world True demo_cropped = (Inr 2, demo_gray) \<and>
   length (list_objs demo_gray ! 2) = length (stored_refs demo_cropped) \<and>
   list_objs demo_gray ! 2 = stored_refs demo_cropped \<and>
   2 \<noteq> items_frames demo_cropped \<and>
   stored_refs demo_gray = stored_refs demo_cropped \<and>
   map ((!) (dict_objs demo_gray)) (list_objs demo_gray ! 2) = stored_crops demo_gray \<and>
   get_items_frames demo_world False demo_gray = (Inr (items_frames demo_cropped), demo_gray) \<and>
   stored_refs demo_cropped = [0, 1] \<and>
   stored_crops demo_gray =
     [\<lparr>key_frame = Gray [[2, 3], [6, 7]], key_x = 1, key_y = 0, key_w = 2, key_h = 2\<rparr>,
      \<lparr>key_frame = Gray [[5, 6], [9, 10]], key_x = 0, key_y = 1, key_w = 2, key_h = 2\<rparr>]"
proof -
  have w: "wf demo_cropped" by code_simp
  have g: "get_items_frames demo_world True demo_cropped = (Inr 2, demo_gray)" by code_simp
  have r: "stored_refs demo_cropped = [0, 1]" by code_simp
  have v: "stored_crops demo_gray =
     [\<lparr>key_frame = Gray [[2, 3], [6, 7]], key_x = 1, key_y = 0, key_w = 2, key_h = 2\<rparr>,
      \<lparr>key_frame = Gray [[5, 6], [9, 10]], key_x = 0, key_y = 1, key_w = 2, key_h = 2\<rparr>]"
    by code_simp
  from C10_returned_list_shares_records [OF w g] w g r v show ?thesis by blast
qed

subsection \<open>Archiving\<close>

lemma item_file_calls: "item_file (s\<lparr>imwrite_calls := c\<rparr>) n d = item_file s n d"
  by (simp add: item_file_def read_buffer_frame [of "s\<lparr>imwrite_calls := c\<rparr>" s])

lemma files_from_calls: "files_from (s\<lparr>imwrite_calls := c\<rparr>) idx ds = files_from s idx ds"
  by (induction ds arbitrary: idx) (simp_all add: item_file_calls)

lemma archive_loop_calls:
  "archive_loop W ds idx s = (r, s') \<Longrightarrow>
   \<exists>k. s' = s\<lparr>imwrite_calls := imwrite_calls s @ take k (files_from s idx ds)\<rparr> \<and>
       (r = None \<longrightarrow> take k (files_from s idx ds) = files_from s idx ds)"
proof (induction ds arbitrary: idx s)
  case Nil
  then show ?case by simp
next
  case (Cons d ds)
  let ?f = "item_file s idx d"
  let ?s1 = "s\<lparr>imwrite_calls := imwrite_calls s @ [?f]\<rparr>"
  show ?case
  proof (cases "cv2_imwrite W (fst ?f) (snd ?f)")
    case (Some e)
    with Cons.prems have "s' = ?s1" "r = Some e"
      by (simp_all add: item_file_def Let_def)
    then have "s' = s\<lparr>imwrite_calls := imwrite_calls s @ take 1 (files_from s idx (d # ds))\<rparr> \<and>
       (r = None \<longrightarrow> take 1 (files_from s idx (d # ds)) = files_from s idx (d # ds))"
      by simp
    then show ?thesis by blast
  next
    case None
    with Cons.prems have "archive_loop W ds (idx + 1) ?s1 = (r, s')"
      by (simp add: item_file_def Let_def)
    from Cons.IH [OF this] obtain k where
      k: "s' = ?s1\<lparr>imwrite_calls := imwrite_calls ?s1 @ take k (files_from ?s1 (idx + 1) ds)\<rparr>"
         "r = None \<longrightarrow> take k (files_from ?s1 (idx + 1) ds) = files_from ?s1 (idx + 1) ds"
      by blast
    have "s' = s\<lparr>imwrite_calls := imwrite_calls s @ take (Suc k) (files_from s idx (d # ds))\<rparr> \<and>
       (r = None \<longrightarrow> take (Suc k) (files_from s idx (d # ds)) = files_from s idx (d # ds))"
      using k by (simp add: files_from_calls)
    then show ?thesis by blast
  qed
qed










lemma dec_nonempty: "dec n \<noteq> []"
  by (subst dec.simps) simp






lemma init_state:
  "init W now path folder dbg = Inr s0 \<Longrightarrow>
   s0 = \<lparr>image_path = path, archive_folder = folder, debug = dbg, items = [],
         items_frames = 0, images_prefix = strftime_prefix now,
         frame = imread W path, list_objs = [[]], dict_objs = [], imwrite_calls = []\<rparr>"
  by (auto simp: init_def Let_def split: if_splits option.splits)

lemma find_items_state: "snd (find_items W s) = s\<lparr>items := items (snd (find_items W s))\<rparr>"
  by (simp add: find_items_def split: option.splits sum.splits)

lemma rectangle_loop_fields:
  "rectangle_loop W fs s = (r, s') \<Longrightarrow>
   s' = s\<lparr>frame := frame s'\<rparr> \<and> (frame s' = None \<longleftrightarrow> frame s = None)"
proof (induction fs arbitrary: s)
  case Nil
  then show ?case by auto
next
  case (Cons f fs)
  obtain x y w h where f: "f = (x, y, w, h)" by (cases f) auto
  show ?case
  proof (cases "cv2_rectangle W (frame s) (x, y) (x + w, y + h) (0, 255, 0) 3")
    case (Inl e)
    with Cons.prems f show ?thesis by auto
  next
    case (Inr g)
    then have n: "g = None \<longleftrightarrow> frame s = None"
      by (auto simp: cv2_rectangle_def split: if_splits option.splits)
    let ?s1 = "s\<lparr>frame := g\<rparr>"
    from Cons.prems f Inr have "rectangle_loop W fs ?s1 = (r, s')" by simp
    from Cons.IH [OF this] have "s' = ?s1\<lparr>frame := frame s'\<rparr>" "frame s' = None \<longleftrightarrow> g = None"
      by simp_all
    moreover have "?s1\<lparr>frame := frame s'\<rparr> = s\<lparr>frame := frame s'\<rparr>" by simp
    ultimately show ?thesis using n by simp
  qed
qed

subsection \<open>Labels\<close>

lemma add_label_cases:
  "add_label W text x y s =
     (if c_int (x + 40) \<and> c_int (snd (spec_label_position x y))
      then (Inr (), s\<lparr>frame := map_option (\<lambda>a. putText W a text (spec_label_position x y)
                                    FONT_HERSHEY_SIMPLEX (12 / 10) (0, 255, 0) 4) (frame s)\<rparr>)
      else (Inl CvError, s))"
  by (cases "frame s") (auto simp: add_label_def cv2_putText_def spec_label_position_def Let_def)

text \<open>
  C4 (as amended). On a decoded image and for a position inside the range of the C type
  \<^verbatim>\<open>int\<close>, \<open>add_label text x y\<close> returns, the full frame becomes what \<^verbatim>\<open>cv2.putText\<close>
  makes of it with the text at \<open>(x + 40, y - 5)\<close> when \<open>y > 11\<close> and at \<open>(x + 40, y)\<close>
  otherwise, and nothing else changes: 5 and 11 are not shifted, 12 and 50 are.
\<close>

theorem C4_label_position:
  assumes "frame s = Some a" "c_int (x + 40)" "c_int (snd (spec_label_position x y))"
  shows "add_label W text x y s =
           (Inr (), s\<lparr>frame := Some (putText W a text (spec_label_position x y)
                                       FONT_HERSHEY_SIMPLEX (12 / 10) (0, 255, 0) 4)\<rparr>) \<and>
         spec_label_position x 5 = (x + 40, 5) \<and> spec_label_position x 11 = (x + 40, 11) \<and>
         spec_label_position x 12 = (x + 40, 7) \<and> spec_label_position x 50 = (x + 40, 45)"
  using assms by (simp add: add_label_cases) (simp add: spec_label_position_def)

text \<open>C4 at the label of the main program.\<close>

theorem C4_witness:
  "frame demo_state = Some demo_image \<and> c_int (1 + 40) \<and> c_int (snd (spec_label_position 1 50)) \<and>
   add_label demo_world ''coucou'' 1 50 demo_state =
     (Inr (), demo_state\<lparr>frame := Some (putText demo_world demo_image ''coucou''
          (spec_label_position 1 50) FONT_HERSHEY_SIMPLEX (12 / 10) (0, 255, 0) 4)\<rparr>) \<and>
   spec_label_position 1 50 = (41, 45) \<and> spec_label_position 1 11 = (41, 11)"
proof -
  have h: "frame demo_state = Some demo_image" by (simp add: demo_state_def)
  have r: "c_int (1 + 40)" "c_int (snd (spec_label_position 1 50))"
    by (simp_all add: c_int_def spec_label_position_def)
  have v: "spec_label_position 1 50 = (41, 45)" "spec_label_position 1 11 = (41, 11)"
    by (simp_all add: spec_label_position_def)
  from C4_label_position [OF h r, of demo_world "''coucou''"] h r v show ?thesis by blast
qed

text \<open>
  C4 as stated fails: a position outside the range of the C type \<^verbatim>\<open>int\<close> makes
  \<^verbatim>\<open>cv2.putText\<close> raise and nothing is drawn, and on an object whose image was not
  decoded the call returns and there is no frame to draw on.
\<close>

theorem C4_counterexample:
  "add_label demo_world ''coucou'' 2147483608 50 demo_state = (Inl CvError, demo_state) \<and>
   frame undecoded_state = None \<and>
   add_label demo_world ''coucou'' 1 50 undecoded_state = (Inr (), undecoded_state)"
proof -
  have "add_label demo_world ''coucou'' 2147483608 50 demo_state = (Inl CvError, demo_state)"
    by (simp add: add_label_cases c_int_def)
  moreover have f: "frame undecoded_state = None" by (simp add: undecoded_state_def)
  moreover have "add_label demo_world ''coucou'' 1 50 undecoded_state = (Inr (), undecoded_state)"
    by (simp add: add_label_cases c_int_def spec_label_position_def f)
  ultimately show ?thesis by blast
qed

subsection \<open>What the methods leave alone\<close>

lemma wf_same_store: "same_store s' s \<Longrightarrow> wf s' = wf s"
  by (simp add: same_store_def wf_def stored_refs_def)

lemma find_items_same: "same_names (snd (find_items W s)) s \<and> same_store (snd (find_items W s)) s"
  by (subst (1 2) find_items_state) (simp add: same_names_def same_store_def)

lemma add_label_same:
  "same_names (snd (add_label W text x y s)) s \<and> same_store (snd (add_label W text x y s)) s"
  by (simp add: add_label_cases same_names_def same_store_def)



lemma archive_items_state:
  "\<exists>k. snd (archive_items_frames W s) =
        s\<lparr>imwrite_calls := imwrite_calls s @ take k (files_from s 0 (stored_refs s))\<rparr> \<and>
       (fst (archive_items_frames W s) = Inr () \<longrightarrow>
          take k (files_from s 0 (stored_refs s)) = files_from s 0 (stored_refs s))"
proof -
  obtain r s' where loop: "archive_loop W (stored_refs s) 0 s = (r, s')"
    by (cases "archive_loop W (stored_refs s) 0 s") auto
  from archive_loop_calls [OF loop] obtain k where
    "s' = s\<lparr>imwrite_calls := imwrite_calls s @ take k (files_from s 0 (stored_refs s))\<rparr>"
    "r = None \<longrightarrow> take k (files_from s 0 (stored_refs s)) = files_from s 0 (stored_refs s)"
    by blast
  with loop have "snd (archive_items_frames W s) =
        s\<lparr>imwrite_calls := imwrite_calls s @ take k (files_from s 0 (stored_refs s))\<rparr> \<and>
       (fst (archive_items_frames W s) = Inr () \<longrightarrow>
          take k (files_from s 0 (stored_refs s)) = files_from s 0 (stored_refs s))"
    by (cases r) (simp_all add: archive_items_frames_def)
  then show ?thesis by blast
qed


lemma archive_items_same:
  "same_names (snd (archive_items_frames W s)) s \<and> same_store (snd (archive_items_frames W s)) s"
proof -
  from archive_items_state [of W s] obtain c where
    "snd (archive_items_frames W s) = s\<lparr>imwrite_calls := c\<rparr>" by blast
  then show ?thesis by (simp add: same_names_def same_store_def)
qed

lemma archive_with_items_effect:
  assumes "archive_with_items W t s = (r, s')"
  shows "s' = s\<lparr>frame := frame s', imwrite_calls := imwrite_calls s'\<rparr>"
    and "r = Inr () \<Longrightarrow>
         \<exists>b. frame s' = Some b \<and>
             imwrite_calls s' =
               imwrite_calls s @
               [(path_join (archive_folder s) (full_name (images_prefix s)), Some (BGR b))]"
proof -
  obtain r1 s1 where loop: "rectangle_loop W (items s) s = (r1, s1)"
    by (cases "rectangle_loop W (items s) s") auto
  from rectangle_loop_fields [OF loop] have s1: "s1 = s\<lparr>frame := frame s1\<rparr>" by simp
  have f: "archive_folder s1 = archive_folder s" "images_prefix s1 = images_prefix s"
    "imwrite_calls s1 = imwrite_calls s" "debug s1 = debug s"
    by (subst s1, simp)+
  from assms loop
  have a: "s' = s1\<lparr>frame := frame s', imwrite_calls := imwrite_calls s'\<rparr> \<and>
        (r = Inr () \<longrightarrow> (\<exists>b. frame s' = Some b \<and>
             imwrite_calls s' =
               imwrite_calls s1 @
               [(path_join (archive_folder s1) (full_name (images_prefix s1)), Some (BGR b))]))"
    by (auto simp: archive_with_items_def cv2_imwrite_def Let_def
        split: option.splits if_splits sum.splits)
  then have "s' = s1\<lparr>frame := frame s', imwrite_calls := imwrite_calls s'\<rparr>" by simp
  also have "\<dots> = s\<lparr>frame := frame s', imwrite_calls := imwrite_calls s'\<rparr>"
    by (subst s1) simp
  finally show "s' = s\<lparr>frame := frame s', imwrite_calls := imwrite_calls s'\<rparr>" .
  assume "r = Inr ()"
  with a show "\<exists>b. frame s' = Some b \<and>
             imwrite_calls s' =
               imwrite_calls s @
               [(path_join (archive_folder s) (full_name (images_prefix s)), Some (BGR b))]"
    by (simp add: f)
qed

lemma archive_with_items_same:
  "same_names (snd (archive_with_items W t s)) s \<and> same_store (snd (archive_with_items W t s)) s"
proof -
  obtain r s' where a: "archive_with_items W t s = (r, s')"
    by (cases "archive_with_items W t s") auto
  have "same_names s' s \<and> same_store s' s"
    by (subst (1 2) archive_with_items_effect(1) [OF a]) (simp add: same_names_def same_store_def)
  with a show ?thesis by simp
qed



subsection \<open>Every object is well formed\<close>

lemma wf_init: "init W now path folder dbg = Inr s0 \<Longrightarrow> wf s0"
  by (drule init_state) (simp add: wf_def stored_refs_def)

lemma wf_extract: "wf s \<Longrightarrow> wf (snd (extract_items_frames s))"
proof (cases "frame s")
  case None
  assume "wf s"
  then show ?thesis
    by (simp add: extract_None [OF None] wf_def stored_refs_def nth_append)
next
  case (Some a)
  show ?thesis
    by (simp add: extract_Some [OF Some] wf_def stored_refs_def)
qed

lemma wf_get: "wf s \<Longrightarrow> wf (snd (get_items_frames W g s))"
proof (cases g)
  case False
  assume "wf s"
  with False show ?thesis by (simp add: get_items_frames_def)
next
  case True
  assume w: "wf s"
  let ?l = "length (list_objs s)"
  let ?s1 = "s\<lparr>list_objs := list_objs s @ [[]]\<rparr>"
  obtain r s2 where loop: "gray_loop W (stored_refs s) ?l ?s1 = (r, s2)"
    by (cases "gray_loop W (stored_refs s) ?l ?s1") auto
  from w have v: "items_frames s < ?l" by (simp add: wf_def)
  have fl: "items_frames s2 = items_frames s" "length (dict_objs s2) = length (dict_objs s)"
    "length (list_objs s2) = Suc ?l"
    using gray_loop_fields [OF loop] by simp_all
  have "list_objs s2 ! items_frames s = list_objs ?s1 ! items_frames s"
    using v by (intro gray_loop_lists [OF loop]) simp
  then have "stored_refs s2 = stored_refs s"
    using v fl(1) by (simp add: stored_refs_def nth_append)
  with w fl have "wf s2" by (simp add: wf_def)
  moreover have "snd (get_items_frames W g s) = s2"
    using True loop by (cases r) (simp_all add: get_True [OF w])
  ultimately show ?thesis by simp
qed

lemma wf_step: "wf s \<Longrightarrow> wf (step s wc)"
proof -
  assume w: "wf s"
  obtain W c where wc: "wc = (W, c)" by (cases wc) auto
  show ?thesis
    unfolding wc using w
    by (cases c)
       (simp_all add: step_def wf_extract wf_get
          wf_same_store [OF conjunct2 [OF find_items_same]]
          wf_same_store [OF conjunct2 [OF add_label_same]]
          wf_same_store [OF conjunct2 [OF archive_items_same]]
          wf_same_store [OF conjunct2 [OF archive_with_items_same]])
qed

lemma wf_run: "wf s \<Longrightarrow> wf (run cs s)"
proof (induction cs arbitrary: s)
  case Nil
  then show ?case by (simp add: run_def)
next
  case (Cons c cs)
  from Cons.prems have "wf (step s c)" by (rule wf_step)
  then have "wf (run cs (step s c))" by (rule Cons.IH)
  then show ?case by (simp add: run_def)
qed

subsection \<open>File names\<close>




subsection \<open>The empty state\<close>







subsection \<open>Detection and the crops\<close>

text \<open>
  C9. \<open>find_items\<close> changes no field of the object but the region list, whether it
  returns or raises, and no object of the store: the frame, the stored list, its
  records and what their buffers show are as before the call, so the crops built
  earlier stay, whatever the new regions are.
\<close>

theorem C9_find_items_changes_regions_only:
  "snd (find_items W s) = s\<lparr>items := items (snd (find_items W s))\<rparr> \<and>
   frame (snd (find_items W s)) = frame s \<and>
   items_frames (snd (find_items W s)) = items_frames s \<and>
   list_objs (snd (find_items W s)) = list_objs s \<and>
   dict_objs (snd (find_items W s)) = dict_objs s \<and>
   stored_crops (snd (find_items W s)) = stored_crops s \<and>
   map (\<lambda>c. read_buffer (snd (find_items W s)) (key_frame c))
       (stored_crops (snd (find_items W s))) =
     map (\<lambda>c. read_buffer s (key_frame c)) (stored_crops s)"
proof -
  let ?s = "snd (find_items W s)"
  have st: "?s = s\<lparr>items := items ?s\<rparr>" by (rule find_items_state)
  have f: "frame ?s = frame s" by (subst st) simp
  have l: "items_frames ?s = items_frames s" by (subst st) simp
  have lo: "list_objs ?s = list_objs s" by (subst st) simp
  have d: "dict_objs ?s = dict_objs s" by (subst st) simp
  have c: "stored_crops ?s = stored_crops s"
    by (simp add: stored_crops_def stored_refs_def l lo d)
  have r: "\<And>b. read_buffer ?s b = read_buffer s b"
    unfolding read_buffer_def f by (rule refl)
  from st f l lo d c r show ?thesis by simp
qed

text \<open>
  C9 at the object that holds two crops, when the service now finds one other face: the
  region list is the new one and the two crops are the old ones.
\<close>

theorem C9_witness:
  "fst (find_items redetect_world demo_cropped) = Inr () \<and>
   items (snd (find_items redetect_world demo_cropped)) = [(0, 0, 1, 1)] \<and>
   frame (snd (find_items redetect_world demo_cropped)) = Some demo_image \<and>
   items_frames (snd (find_items redetect_world demo_cropped)) = 1 \<and>
   map (\<lambda>c. (key_x c, key_y c, key_w c, key_h c))
     (stored_crops (snd (find_items redetect_world demo_cropped))) =
     [(1, 0, 2, 2), (0, 1, 2, 2)]"
proof -
  note T = C9_find_items_changes_regions_only [of redetect_world demo_cropped]
  have 1: "fst (find_items redetect_world demo_cropped) = Inr ()" by code_simp
  have 2: "items (snd (find_items redetect_world demo_cropped)) = [(0, 0, 1, 1)]"
    by code_simp
  have f0: "frame demo_cropped = Some demo_image" by code_simp
  have l0: "items_frames demo_cropped = 1" by code_simp
  have c0: "map (\<lambda>c. (key_x c, key_y c, key_w c, key_h c)) (stored_crops demo_cropped) =
     [(1, 0, 2, 2), (0, 1, 2, 2)]" by code_simp
  from T f0 have 3: "frame (snd (find_items redetect_world demo_cropped)) = Some demo_image"
    by (simp only:)
  from T l0 have 4: "items_frames (snd (find_items redetect_world demo_cropped)) = 1"
    by (simp only:)
  from T have "stored_crops (snd (find_items redetect_world demo_cropped)) =
      stored_crops demo_cropped" by blast
  with c0 have 5: "map (\<lambda>c. (key_x c, key_y c, key_w c, key_h c))
     (stored_crops (snd (find_items redetect_world demo_cropped))) =
     [(1, 0, 2, 2), (0, 1, 2, 2)]" by (simp only:)
  from 1 2 3 4 5 show ?thesis by blast
qed

end
